theory Spec2Isabelle
  imports Complex_Main
begin

section \<open>JavaScript numbers\<close>

text \<open>
  The component computes with JavaScript numbers. Finite values are modelled as exact
  reals; the three non-finite values are kept, because the source can produce them:
  \<^verbatim>\<open>100 / dist\<close> is \<^verbatim>\<open>Infinity\<close> when two stars coincide, and \<^verbatim>\<open>0 * Infinity\<close> is
  \<^verbatim>\<open>NaN\<close>. Quantities that are finite on every path of the source (viewport sizes, values
  returned by \<^verbatim>\<open>Math.random()\<close>, star fields, \<^verbatim>\<open>Math.hypot\<close> of star coordinates) have
  type \<^typ>\<open>real\<close>. Rounding is modelled where it decides an integer, in the number of
  background stars (\<open>fl\<close> below); elsewhere it is not, and overflow is not modelled.
\<close>

datatype jsnum = Fin real | PInf | NInf | NaN

fun jadd :: "jsnum \<Rightarrow> jsnum \<Rightarrow> jsnum" where
  "jadd NaN b = NaN"
| "jadd a NaN = NaN"
| "jadd (Fin a) (Fin b) = Fin (a + b)"
| "jadd (Fin a) PInf = PInf"
| "jadd (Fin a) NInf = NInf"
| "jadd PInf (Fin b) = PInf"
| "jadd NInf (Fin b) = NInf"
| "jadd PInf PInf = PInf"
| "jadd NInf NInf = NInf"
| "jadd PInf NInf = NaN"
| "jadd NInf PInf = NaN"

fun jmul :: "jsnum \<Rightarrow> jsnum \<Rightarrow> jsnum" where
  "jmul NaN b = NaN"
| "jmul a NaN = NaN"
| "jmul (Fin a) (Fin b) = Fin (a * b)"
| "jmul (Fin a) PInf = (if a = 0 then NaN else if 0 < a then PInf else NInf)"
| "jmul (Fin a) NInf = (if a = 0 then NaN else if 0 < a then NInf else PInf)"
| "jmul PInf (Fin b) = (if b = 0 then NaN else if 0 < b then PInf else NInf)"
| "jmul NInf (Fin b) = (if b = 0 then NaN else if 0 < b then NInf else PInf)"
| "jmul PInf PInf = PInf"
| "jmul NInf NInf = PInf"
| "jmul PInf NInf = NInf"
| "jmul NInf PInf = NInf"

text \<open>
  Division. A zero divisor is read as \<^verbatim>\<open>+0\<close>: the only divisors of the source are the
  literal \<^verbatim>\<open>100\<close> and a result of \<^verbatim>\<open>Math.hypot\<close>, which is never \<^verbatim>\<open>-0\<close>.
\<close>

fun jdiv :: "jsnum \<Rightarrow> jsnum \<Rightarrow> jsnum" where
  "jdiv NaN b = NaN"
| "jdiv a NaN = NaN"
| "jdiv (Fin a) (Fin b) =
     (if b = 0 then (if a = 0 then NaN else if 0 < a then PInf else NInf)
      else Fin (a / b))"
| "jdiv (Fin a) PInf = Fin 0"
| "jdiv (Fin a) NInf = Fin 0"
| "jdiv PInf (Fin b) = (if 0 \<le> b then PInf else NInf)"
| "jdiv NInf (Fin b) = (if 0 \<le> b then NInf else PInf)"
| "jdiv PInf PInf = NaN"
| "jdiv PInf NInf = NaN"
| "jdiv NInf PInf = NaN"
| "jdiv NInf NInf = NaN"

text \<open>Comparisons: every comparison with \<^verbatim>\<open>NaN\<close> is false.\<close>

fun jless :: "jsnum \<Rightarrow> jsnum \<Rightarrow> bool" where
  "jless NaN b = False"
| "jless a NaN = False"
| "jless (Fin a) (Fin b) = (a < b)"
| "jless (Fin a) PInf = True"
| "jless (Fin a) NInf = False"
| "jless PInf b = False"
| "jless NInf NInf = False"
| "jless NInf b = True"

fun jle :: "jsnum \<Rightarrow> jsnum \<Rightarrow> bool" where
  "jle NaN b = False"
| "jle a NaN = False"
| "jle (Fin a) (Fin b) = (a \<le> b)"
| "jle (Fin a) PInf = True"
| "jle (Fin a) NInf = False"
| "jle PInf PInf = True"
| "jle PInf b = False"
| "jle NInf b = True"

text \<open>
  Rounding to double precision: \<open>fl x\<close> is the multiple of \<open>2 ^ (e - 52)\<close> nearest
  \<open>x\<close>, where \<open>2 ^ e \<le> \<bar>x\<bar> < 2 ^ (e + 1)\<close>, a tie going to the even multiple. This
  is the double nearest \<open>x\<close> for every \<open>x\<close> in the range of the normal doubles; the
  coarser doubles below \<open>2 ^ - 1022\<close> and the overflow to \<^verbatim>\<open>Infinity\<close> are not modelled.
\<close>

definition round_half_even :: "real \<Rightarrow> int" where
  "round_half_even x =
     (let f = \<lfloor>x\<rfloor>; r = x - of_int f
      in if r < 1/2 then f else if 1/2 < r then f + 1 else if even f then f else f + 1)"

definition fl :: "real \<Rightarrow> real" where
  "fl x =
     (if x = 0 then 0
      else (let e = \<lfloor>log 2 \<bar>x\<bar>\<rfloor>; u = 2 powr (of_int e - 52)
            in of_int (round_half_even (x / u)) * u))"

section \<open>The random source\<close>

text \<open>
  \<^verbatim>\<open>Math.random()\<close> is the sequence of values it will return, read at a position that
  every call advances. Each value lies in \<open>[0, 1)\<close>; theorems that need the range assume it.
\<close>

type_synonym rng = "nat \<Rightarrow> real"

definition Math_random :: "rng \<Rightarrow> nat \<Rightarrow> real \<times> nat" where
  "Math_random rnd k = (rnd k, Suc k)"

definition Math_hypot :: "real \<Rightarrow> real \<Rightarrow> real" where
  "Math_hypot a b = sqrt (a * a + b * b)"

section \<open>Star\<close>

record Star =
  star_x :: real
  star_y :: real
  star_size :: real
  brightness :: real
  flickerSpeed :: real

text \<open>
  \<^verbatim>\<open>constructor(w, h, x?, y?)\<close>: a coordinate that is not given is drawn at random. The
  draws happen in the order of the assignments.
\<close>

definition Star_new ::
  "real \<Rightarrow> real \<Rightarrow> real option \<Rightarrow> real option \<Rightarrow> rng \<Rightarrow> nat \<Rightarrow> Star \<times> nat" where
  "Star_new w h xo yo rnd k0 =
     (let (px, k1) = (case xo of Some v \<Rightarrow> (v, k0)
                      | None \<Rightarrow> (let (r, k) = Math_random rnd k0 in (r * w, k)));
          (py, k2) = (case yo of Some v \<Rightarrow> (v, k1)
                      | None \<Rightarrow> (let (r, k) = Math_random rnd k1 in (r * h, k)));
          (r3, k3) = Math_random rnd k2;
          (r4, k4) = Math_random rnd k3;
          (r5, k5) = Math_random rnd k4
      in (\<lparr>star_x = px, star_y = py, star_size = r3 * 1.5 + 0.5,
           brightness = r4, flickerSpeed = 0.02 + r5 * 0.05\<rparr>, k5))"

definition Star_update :: "Star \<Rightarrow> Star" where
  "Star_update s =
     (let s1 = s\<lparr>brightness := brightness s + flickerSpeed s\<rparr>
      in if brightness s1 > 1 \<or> brightness s1 < 0.2
         then s1\<lparr>flickerSpeed := flickerSpeed s1 * (- 1)\<rparr>
         else s1)"

section \<open>The drawing surface\<close>

text \<open>
  A draw call is recorded as the canvas operation it performs. A colour string
  \<^verbatim>\<open>rgba(r, g, b, a)\<close> is kept as its four components.
\<close>

datatype colour = RGBA nat nat nat jsnum

datatype canvas_op =
    ClearRect jsnum jsnum jsnum jsnum
  | Save
  | Restore
  | FillStyle colour
  | StrokeStyle colour
  | LineWidth real
  | BeginPath
  | Arc jsnum jsnum jsnum jsnum jsnum
  | Fill
  | MoveTo jsnum jsnum
  | LineTo jsnum jsnum
  | Stroke

definition Star_draw :: "Star \<Rightarrow> canvas_op list" where
  "Star_draw s =
     [FillStyle (RGBA 200 200 255 (Fin \<bar>brightness s\<bar>)),
      BeginPath,
      Arc (Fin (star_x s)) (Fin (star_y s)) (Fin (star_size s)) (Fin 0) (Fin (pi * 2)),
      Fill]"

section \<open>RootConnection\<close>

text \<open>
  A connection refers to its two stars. A reference is the star's index in the field's
  \<open>stars\<close> array: the array only grows while the field is built and is replaced as a
  whole afterwards, so an index names one star object for the life of the field.
\<close>

record RootConnection =
  startStar :: nat
  endStar :: nat
  progress :: jsnum
  speed :: jsnum
  maxDist :: real

definition RootConnection_new ::
  "nat \<Rightarrow> nat \<Rightarrow> real \<Rightarrow> rng \<Rightarrow> nat \<Rightarrow> RootConnection \<times> nat" where
  "RootConnection_new s1 s2 dst rnd k0 =
     (let (r, k1) = Math_random rnd k0
      in (\<lparr>startStar = s1, endStar = s2, progress = Fin 0,
           speed = jmul (Fin (0.5 + r * 0.5)) (jdiv (Fin 100) (Fin dst)),
           maxDist = dst\<rparr>, k1))"

definition RootConnection_update :: "RootConnection \<Rightarrow> RootConnection" where
  "RootConnection_update c =
     (if jless (progress c) (Fin 100)
      then c\<lparr>progress := jadd (progress c) (speed c)\<rparr>
      else c)"

definition RootConnection_draw :: "Star list \<Rightarrow> RootConnection \<Rightarrow> canvas_op list" where
  "RootConnection_draw ss c =
     (if jle (progress c) (Fin 0) then []
      else
        (let s1 = ss ! startStar c;
             s2 = ss ! endStar c;
             dx = star_x s2 - star_x s1;
             dy = star_y s2 - star_y s1;
             currentX = jadd (Fin (star_x s1)) (jmul (Fin dx) (jdiv (progress c) (Fin 100)));
             currentY = jadd (Fin (star_y s1)) (jmul (Fin dy) (jdiv (progress c) (Fin 100)));
             alpha = jmul (Fin 0.15) (jdiv (progress c) (Fin 100))
         in [StrokeStyle (RGBA 180 100 255 alpha),
             LineWidth 0.8,
             BeginPath,
             MoveTo (Fin (star_x s1)) (Fin (star_y s1)),
             LineTo currentX currentY,
             Stroke]))"

section \<open>The field and its initializer\<close>

record Field =
  stars :: "Star list"
  roots :: "RootConnection list"

type_synonym point = "real \<times> real"

definition CAPRICORN :: "point list" where
  "CAPRICORN =
     [(0.2, 0.2), (0.3, 0.15), (0.4, 0.2), (0.35, 0.3), (0.25, 0.35),
      (0.15, 0.3), (0.1, 0.4), (0.45, 0.25), (0.5, 0.1)]"

definition CANCER :: "point list" where
  "CANCER = [(0.5, 0.5), (0.4, 0.6), (0.6, 0.6), (0.5, 0.7), (0.5, 0.4)]"

text \<open>
  \<^verbatim>\<open>pattern.forEach\<close> of \<^verbatim>\<open>addConstellation\<close>: one star per pattern point, pushed on
  \<open>stars\<close> and on \<open>constellationStars\<close> (here the list of the references pushed).
\<close>

fun pattern_forEach ::
  "real \<Rightarrow> real \<Rightarrow> real \<Rightarrow> real \<Rightarrow> real \<Rightarrow> rng \<Rightarrow> point list \<Rightarrow>
   Star list \<times> nat list \<times> nat \<Rightarrow> Star list \<times> nat list \<times> nat" where
  "pattern_forEach w h scale offsetX offsetY rnd [] st = st"
| "pattern_forEach w h scale offsetX offsetY rnd (p # ps) (ss, cs, k) =
     (let (s, k') = Star_new w h (Some (fst p * scale + offsetX))
                      (Some (snd p * scale + offsetY)) rnd k
      in pattern_forEach w h scale offsetX offsetY rnd ps (ss @ [s], cs @ [length ss], k'))"

text \<open>
  The loop \<^verbatim>\<open>for (i = 0; i < constellationStars.length - 1; i++)\<close>;
  \<open>connect_next\<close> is its body.
\<close>

definition connect_next ::
  "Star list \<Rightarrow> nat list \<Rightarrow> rng \<Rightarrow> nat \<Rightarrow> RootConnection list \<times> nat \<Rightarrow>
   RootConnection list \<times> nat" where
  "connect_next ss cs rnd i st =
     (case st of (rs, k) \<Rightarrow>
        (let a = cs ! i;
             b = cs ! (i + 1);
             dst = Math_hypot (star_x (ss ! a) - star_x (ss ! b))
                     (star_y (ss ! a) - star_y (ss ! b));
             (c, k') = RootConnection_new a b dst rnd k
         in (rs @ [c], k')))"

function connect_sequential ::
  "Star list \<Rightarrow> nat list \<Rightarrow> rng \<Rightarrow> nat \<Rightarrow> RootConnection list \<times> nat \<Rightarrow>
   RootConnection list \<times> nat" where
  "connect_sequential ss cs rnd i st =
     (if int i < int (length cs) - 1
      then connect_sequential ss cs rnd (i + 1) (connect_next ss cs rnd i st)
      else st)"
  by pat_completeness auto
termination
  by (relation "measure (\<lambda>(ss, cs, rnd, i, st). length cs - i)") auto

declare connect_sequential.simps [simp del]

definition addConstellation ::
  "real \<Rightarrow> real \<Rightarrow> rng \<Rightarrow> point list \<Rightarrow> real \<Rightarrow> real \<Rightarrow> real \<Rightarrow>
   Star list \<times> RootConnection list \<times> nat \<Rightarrow> Star list \<times> RootConnection list \<times> nat" where
  "addConstellation w h rnd pattern scale offsetX offsetY st =
     (case st of (ss, rs, k) \<Rightarrow>
        (let (ss', cs, k1) = pattern_forEach w h scale offsetX offsetY rnd pattern (ss, [], k);
             (rs', k2) = connect_sequential ss' cs rnd 0 (rs, k1)
         in (ss', rs', k2)))"

text \<open>
  The loop \<^verbatim>\<open>for (i = 0; i < numStars; i++) stars.push(new Star(width, height))\<close>;
  \<open>push_random_star\<close> is its body.
\<close>

definition push_random_star ::
  "real \<Rightarrow> real \<Rightarrow> rng \<Rightarrow> Star list \<times> nat \<Rightarrow> Star list \<times> nat" where
  "push_random_star w h rnd st =
     (case st of (ss, k) \<Rightarrow>
        (let (s, k') = Star_new w h None None rnd k in (ss @ [s], k')))"

function add_background ::
  "real \<Rightarrow> real \<Rightarrow> rng \<Rightarrow> int \<Rightarrow> nat \<Rightarrow> Star list \<times> nat \<Rightarrow> Star list \<times> nat" where
  "add_background w h rnd numStars i st =
     (if int i < numStars
      then add_background w h rnd numStars (i + 1) (push_random_star w h rnd st)
      else st)"
  by pat_completeness auto
termination
  by (relation "measure (\<lambda>(w, h, rnd, numStars, i, st). nat numStars - i)") auto

declare add_background.simps [simp del]

text \<open>
  The two nested loops that connect close stars, the inner one from \<open>j = i + 1\<close>.
  \<open>connect_pair\<close> is the body of the inner loop.
\<close>

definition connect_pair ::
  "Star list \<Rightarrow> rng \<Rightarrow> nat \<Rightarrow> nat \<Rightarrow> RootConnection list \<times> nat \<Rightarrow>
   RootConnection list \<times> nat" where
  "connect_pair ss rnd i j st =
     (case st of (rs, k) \<Rightarrow>
        (let dst = Math_hypot (star_x (ss ! i) - star_x (ss ! j))
                     (star_y (ss ! i) - star_y (ss ! j))
         in if dst < 120
            then (let (r, k1) = Math_random rnd k
                  in if r > 0.7
                     then (let (c, k2) = RootConnection_new i j dst rnd k1
                           in (rs @ [c], k2))
                     else (rs, k1))
            else (rs, k)))"

function connect_close_inner ::
  "Star list \<Rightarrow> rng \<Rightarrow> nat \<Rightarrow> nat \<Rightarrow> RootConnection list \<times> nat \<Rightarrow>
   RootConnection list \<times> nat" where
  "connect_close_inner ss rnd i j st =
     (if j < length ss
      then connect_close_inner ss rnd i (j + 1) (connect_pair ss rnd i j st)
      else st)"
  by pat_completeness auto
termination
  by (relation "measure (\<lambda>(ss, rnd, i, j, st). length ss - j)") auto

declare connect_close_inner.simps [simp del]

function connect_close ::
  "Star list \<Rightarrow> rng \<Rightarrow> nat \<Rightarrow> RootConnection list \<times> nat \<Rightarrow> RootConnection list \<times> nat" where
  "connect_close ss rnd i st =
     (if i < length ss
      then connect_close ss rnd (i + 1) (connect_close_inner ss rnd i (i + 1) st)
      else st)"
  by pat_completeness auto
termination
  by (relation "measure (\<lambda>(ss, rnd, i, st). length ss - i)") auto

declare connect_close.simps [simp del]

text \<open>
  \<^verbatim>\<open>initSimulation\<close>, for the \<open>width\<close> and \<open>height\<close> that
  \<^verbatim>\<open>container.getBoundingClientRect()\<close> returns. It starts from empty arrays.
  \<^verbatim>\<open>Math.floor((width * height) / 9000)\<close> floors a double: the product is rounded, and
  so is the quotient.
\<close>

definition initSimulation :: "real \<Rightarrow> real \<Rightarrow> rng \<Rightarrow> nat \<Rightarrow> Field \<times> nat" where
  "initSimulation width height rnd k =
     (let st1 = addConstellation width height rnd CAPRICORN 300
                  (width * 0.1) (height * 0.1) ([], [], k);
          (ss2, rs2, k2) = addConstellation width height rnd CANCER 300
                  (width * 0.6) (height * 0.5) st1;
          numStars = \<lfloor>fl (fl (width * height) / 9000)\<rfloor>;
          (ss3, k3) = add_background width height rnd numStars 0 (ss2, k2);
          (rs3, k4) = connect_close ss3 rnd 0 (rs2, k3)
      in (\<lparr>stars = ss3, roots = rs3\<rparr>, k4))"

section \<open>The effect: setup, frame loop, teardown\<close>

text \<open>
  The state the effect closes over (\<open>raf\<close>, \<open>stopped\<close>, \<open>time\<close>, \<open>dpr\<close>, the two
  arrays, the position in the random sequence), together with what the host holds for it:
  the container's bounding box, the canvas buffer size, the drawing operations issued so
  far, the \<^verbatim>\<open>ctx.scale\<close> calls, the pending animation-frame requests, the pending
  timeouts, whether the \<^verbatim>\<open>ResizeObserver\<close> observes the container and whether the window's
  \<^verbatim>\<open>resize\<close> listener is registered. The two \<^verbatim>\<open>el.style\<close> assignments of
  \<^verbatim>\<open>resize\<close> are not modelled.
\<close>

record World =
  raf :: nat
  stopped :: bool
  time :: real
  dpr :: real
  sim :: Field
  rnd_pos :: nat
  width :: real
  height :: real
  el_width :: int
  el_height :: int
  canvas :: "canvas_op list"
  scale_calls :: "(real \<times> real) list"
  frame_requests :: "nat list"
  timeouts :: "nat list"
  next_id :: nat
  observed :: bool
  resize_listener :: bool

definition requestAnimationFrame :: "World \<Rightarrow> nat \<times> World" where
  "requestAnimationFrame w =
     (next_id w, w\<lparr>frame_requests := frame_requests w @ [next_id w], next_id := next_id w + 1\<rparr>)"

definition cancelAnimationFrame :: "nat \<Rightarrow> World \<Rightarrow> World" where
  "cancelAnimationFrame h w = w\<lparr>frame_requests := removeAll h (frame_requests w)\<rparr>"

definition setTimeout :: "World \<Rightarrow> nat \<times> World" where
  "setTimeout w =
     (next_id w, w\<lparr>timeouts := timeouts w @ [next_id w], next_id := next_id w + 1\<rparr>)"

definition resize :: "World \<Rightarrow> World" where
  "resize w =
     w\<lparr>el_width := max 1 \<lfloor>width w * dpr w\<rfloor>,
       el_height := max 1 \<lfloor>height w * dpr w\<rfloor>,
       scale_calls := scale_calls w @ [(dpr w, dpr w)]\<rparr>"

text \<open>\<^verbatim>\<open>initSimulation\<close> as the closure the effect registers and calls.\<close>

definition run_initSimulation :: "rng \<Rightarrow> World \<Rightarrow> World" where
  "run_initSimulation rnd w =
     (let (f, k) = initSimulation (width w) (height w) rnd (rnd_pos w)
      in w\<lparr>sim := f, rnd_pos := k\<rparr>)"

text \<open>
  One frame. Each \<^verbatim>\<open>forEach\<close> updates an element and draws it before it goes on to the
  next; a connection's drawing reads only the connection and the star coordinates, a
  star's only the star, so the operations are those of the updated elements in order.
\<close>

definition draw :: "World \<Rightarrow> World" where
  "draw w =
     (if stopped w then w
      else
        (let rs = map RootConnection_update (roots (sim w));
             ss = map Star_update (stars (sim w));
             ops = [ClearRect (Fin 0) (Fin 0) (Fin (width w)) (Fin (height w)), Save]
                   @ concat (map (RootConnection_draw (stars (sim w))) rs)
                   @ concat (map Star_draw ss)
                   @ [Restore];
             w1 = w\<lparr>time := time w + 0.05,
                     sim := \<lparr>stars = ss, roots = rs\<rparr>,
                     canvas := canvas w @ ops\<rparr>;
             (h, w2) = requestAnimationFrame w1
         in w2\<lparr>raf := h\<rparr>))"

text \<open>
  The body of the effect. It returns early, registering nothing and returning no cleanup
  function, when the canvas, the container or the 2D context is absent; the booleans say
  which are present. \<open>devicePixelRatio\<close> is \<^verbatim>\<open>window.devicePixelRatio\<close>, where
  \<^verbatim>\<open>x || 1\<close> replaces a zero by one.
\<close>

definition mount ::
  "bool \<Rightarrow> bool \<Rightarrow> bool \<Rightarrow> real \<Rightarrow> rng \<Rightarrow> World \<Rightarrow> World \<times> bool" where
  "mount has_el has_container has_ctx devicePixelRatio rnd w =
     (if \<not> has_el \<or> \<not> has_container then (w, False)
      else if \<not> has_ctx then (w, False)
      else
        (let w1 = w\<lparr>raf := 0, stopped := False, time := 0,
                     dpr := max 1 (if devicePixelRatio = 0 then 1 else devicePixelRatio)\<rparr>;
             w2 = w1\<lparr>observed := True\<rparr>;
             (t, w3) = setTimeout w2;
             w4 = w3\<lparr>sim := \<lparr>stars = [], roots = []\<rparr>\<rparr>;
             w5 = w4\<lparr>resize_listener := True\<rparr>;
             w6 = run_initSimulation rnd w5;
             (h, w7) = requestAnimationFrame w6
         in (w7\<lparr>raf := h\<rparr>, True)))"

text \<open>The cleanup function the effect returns.\<close>

definition teardown :: "World \<Rightarrow> World" where
  "teardown w =
     (let w1 = w\<lparr>stopped := True\<rparr>;
          w2 = cancelAnimationFrame (raf w1) w1;
          w3 = w2\<lparr>resize_listener := False\<rparr>
      in w3\<lparr>observed := False\<rparr>)"

text \<open>Unmounting runs the cleanup function when the effect returned one.\<close>

definition unmount :: "World \<times> bool \<Rightarrow> World" where
  "unmount m = (case m of (w, has_cleanup) \<Rightarrow> if has_cleanup then teardown w else w)"

text \<open>
  What the host can do next: run a pending animation-frame callback (always \<open>draw\<close>), run
  a pending timeout (always \<open>resize\<close>), lay the container out at a new size, dispatch the
  window's \<^verbatim>\<open>resize\<close> event, or notify the resize observer. A callback runs only while
  it is registered.
\<close>

datatype event =
    AnimationFrame nat
  | Timeout nat
  | Layout real real
  | WindowResize
  | ObserverNotify

fun host_step :: "rng \<Rightarrow> event \<Rightarrow> World \<Rightarrow> World" where
  "host_step rnd (AnimationFrame h) w =
     (if h \<in> set (frame_requests w)
      then draw (w\<lparr>frame_requests := removeAll h (frame_requests w)\<rparr>)
      else w)"
| "host_step rnd (Timeout t) w =
     (if t \<in> set (timeouts w)
      then resize (w\<lparr>timeouts := removeAll t (timeouts w)\<rparr>)
      else w)"
| "host_step rnd (Layout nw nh) w = w\<lparr>width := nw, height := nh\<rparr>"
| "host_step rnd WindowResize w =
     (if resize_listener w then run_initSimulation rnd w else w)"
| "host_step rnd ObserverNotify w = (if observed w then resize w else w)"

fun host_run :: "rng \<Rightarrow> event list \<Rightarrow> World \<Rightarrow> World" where
  "host_run rnd [] w = w"
| "host_run rnd (e # es) w = host_run rnd es (host_step rnd e w)"

section \<open>Auxiliary definitions for the statements\<close>

text \<open>A sample random sequence: the eighths \<open>0, 1/8, ..., 7/8\<close>, repeated.\<close>

definition sample_rng :: rng where
  "sample_rng k = real (k mod 8) / 8"

text \<open>
  Linear interpolation from \<open>a\<close> toward \<open>b\<close> at the fraction \<open>t\<close>, as the specification
  words the end point of a growing line.
\<close>

definition interpolate :: "real \<Rightarrow> real \<Rightarrow> jsnum \<Rightarrow> jsnum" where
  "interpolate a b t = jadd (Fin a) (jmul (Fin (b - a)) t)"

text \<open>The alpha components of the fill colours a list of operations sets.\<close>

fun fill_alphas :: "canvas_op list \<Rightarrow> jsnum list" where
  "fill_alphas [] = []"
| "fill_alphas (FillStyle (RGBA r g b a) # ops) = a # fill_alphas ops"
| "fill_alphas (op # ops) = fill_alphas ops"

text \<open>
  A connection as the constructor leaves it, for a field of \<open>n\<close> stars: progress 0, a
  speed that is not negative, and two references to stars of the field.
\<close>

definition connection_built :: "nat \<Rightarrow> RootConnection \<Rightarrow> bool" where
  "connection_built n c =
     (progress c = Fin 0 \<and> jle (Fin 0) (speed c) \<and> startStar c < n \<and> endStar c < n)"

text \<open>A sample world before the component mounts: a 900 by 600 container.\<close>

definition world0 :: World where
  "world0 =
     \<lparr>raf = 0, stopped = False, time = 0, dpr = 1,
      sim = \<lparr>stars = [], roots = []\<rparr>, rnd_pos = 0,
      width = 900, height = 600, el_width = 300, el_height = 150,
      canvas = [], scale_calls = [], frame_requests = [], timeouts = [],
      next_id = 1, observed = False, resize_listener = False\<rparr>"

section \<open>Rounding to double precision\<close>

lemma fl_zero [simp]: "fl 0 = 0"
  by (simp add: fl_def)

text \<open>The rounding error is at most half a unit in the last place.\<close>

lemma round_half_even_error: "\<bar>of_int (round_half_even y) - y\<bar> \<le> 1/2"
  unfolding round_half_even_def Let_def by (auto; linarith)

lemma round_half_even_int [simp]: "round_half_even (of_int m) = m"
  by (simp add: round_half_even_def)

lemma fl_error: "\<bar>fl x - x\<bar> \<le> \<bar>x\<bar> / 2 ^ 53"
proof (cases "x = 0")
  case True
  then show ?thesis by simp
next
  case False
  define e where "e = \<lfloor>log 2 \<bar>x\<bar>\<rfloor>"
  define u :: real where "u = 2 powr (of_int e - 52)"
  have u: "0 < u" by (simp add: u_def)
  have le: "2 powr of_int e \<le> \<bar>x\<bar>"
  proof -
    have "of_int e \<le> log 2 \<bar>x\<bar>" unfolding e_def by simp
    then show ?thesis using False by (simp add: le_log_iff)
  qed
  have f: "fl x = of_int (round_half_even (x / u)) * u"
    using False by (simp add: fl_def Let_def e_def u_def)
  have "fl x - x = (of_int (round_half_even (x / u)) - x / u) * u"
    using u by (simp add: f field_simps)
  then have "\<bar>fl x - x\<bar> = \<bar>of_int (round_half_even (x / u)) - x / u\<bar> * u"
    using u by (simp add: abs_mult)
  also have "\<dots> \<le> 1/2 * u"
    using round_half_even_error[of "x / u"] u by (intro mult_right_mono) simp_all
  also have "1/2 * u = 2 powr of_int e / 2 ^ 53"
  proof -
    have "u = 2 powr of_int e * 2 powr (- 52)"
      unfolding u_def by (simp add: powr_add[symmetric])
    also have "(2::real) powr (- 52) = 1 / 2 ^ 52"
      by (simp add: powr_minus_divide)
    finally show ?thesis by simp
  qed
  also have "\<dots> \<le> \<bar>x\<bar> / 2 ^ 53"
    using le by (simp add: divide_right_mono)
  finally show ?thesis .
qed

lemma fl_int:
  assumes "\<bar>n\<bar> < 2 ^ 53"
  shows "fl (of_int n) = of_int n"
proof (cases "n = 0")
  case True
  then show ?thesis by simp
next
  case False
  define e where "e = \<lfloor>log 2 \<bar>real_of_int n\<bar>\<rfloor>"
  have n1: "1 \<le> \<bar>real_of_int n\<bar>" using False by (simp flip: of_int_abs)
  have e0: "0 \<le> e"
    unfolding e_def using n1 by simp
  have e52: "e \<le> 52"
  proof -
    have "\<bar>real_of_int n\<bar> < 2 ^ 53"
      using assms by (metis of_int_abs of_int_less_numeral_power_cancel_iff)
    then have "log 2 \<bar>real_of_int n\<bar> < 53"
      using n1 by (simp add: log_less_iff powr_realpow)
    then show ?thesis unfolding e_def by linarith
  qed
  define j where "j = nat (52 - e)"
  have u: "2 powr (of_int e - 52) = 1 / (2::real) ^ j"
  proof -
    have "real_of_int e - 52 = - real j" using e52 by (simp add: j_def)
    then have "2 powr (of_int e - 52) = (2::real) powr (- real j)" by simp
    also have "\<dots> = inverse (2 powr real j)" by (rule powr_minus)
    also have "\<dots> = inverse ((2::real) ^ j)" by (simp add: powr_realpow)
    finally show ?thesis by (simp add: inverse_eq_divide)
  qed
  have "real_of_int n / (1 / 2 ^ j) = of_int (n * 2 ^ j)" by simp
  then have "round_half_even (real_of_int n / (1 / 2 ^ j)) = n * 2 ^ j"
    by (simp only: round_half_even_int)
  then show ?thesis
    using False by (simp add: fl_def Let_def e_def[symmetric] u)
qed

lemma floor_fl_div_9000:
  assumes "0 \<le> p" and "p < 2 ^ 53"
  shows "\<lfloor>fl (real_of_int p / 9000)\<rfloor> = \<lfloor>real_of_int p / 9000\<rfloor>"
proof -
  define q where "q = real_of_int p / 9000"
  define n where "n = \<lfloor>q\<rfloor>"
  define r where "r = p - 9000 * n"
  have p: "real_of_int p = 9000 * q" by (simp add: q_def)
  have q0: "0 \<le> q" using assms(1) by (simp add: q_def)
  have n0: "0 \<le> n" using q0 by (simp add: n_def)
  have nq: "of_int n \<le> q" "q < of_int n + 1" unfolding n_def by linarith+
  have "real_of_int (9000 * n) \<le> real_of_int p" "real_of_int p < real_of_int (9000 * n + 9000)"
    using nq p by simp_all
  then have r: "0 \<le> r" "r < 9000"
    unfolding r_def by linarith+
  have qr: "q = of_int n + of_int r / 9000"
    by (simp add: r_def q_def field_simps)
  have pr: "real_of_int p < 2 ^ 53"
    using assms(2) by (metis of_int_less_numeral_power_cancel_iff)
  show ?thesis
  proof (cases "r = 0")
    case True
    then have "q = of_int n" using qr by simp
    moreover have "\<bar>n\<bar> < 2 ^ 53"
    proof -
      have "real_of_int n \<le> real_of_int p" using nq(1) p q0 by linarith
      then have "n \<le> p" by linarith
      then show ?thesis using n0 assms(2) by linarith
    qed
    ultimately have "fl q = of_int n" using fl_int by simp
    then show ?thesis by (simp add: q_def[symmetric] n_def[symmetric])
  next
    case False
    then have r1: "1 \<le> r" using r(1) by linarith
    have lo: "of_int n + 1 / 9000 \<le> q"
      using r1 by (simp add: qr field_simps)
    have hi: "q \<le> of_int n + 1 - 1 / 9000"
    proof -
      have "r \<le> 8999" using r(2) by linarith
      then have "real_of_int r \<le> 8999" by linarith
      then show ?thesis by (simp add: qr field_simps)
    qed
    have "\<bar>fl q - q\<bar> \<le> \<bar>q\<bar> / 2 ^ 53" by (rule fl_error)
    moreover have "\<bar>q\<bar> / 2 ^ 53 < 1 / 9000"
    proof -
      have "q < 2 ^ 53 / 9000" using pr by (simp add: q_def)
      then show ?thesis using q0 by (simp add: field_simps)
    qed
    ultimately have "of_int n < fl q" "fl q < of_int n + 1"
      using lo hi by linarith+
    then have "\<lfloor>fl q\<rfloor> = n" by linarith
    then show ?thesis by (simp add: q_def[symmetric] n_def[symmetric])
  qed
qed

text \<open>The value of \<open>fl\<close> at a number whose binary exponent is known.\<close>

lemma fl_eval:
  assumes "2 ^ k \<le> \<bar>x\<bar>" and "\<bar>x\<bar> < 2 ^ Suc k" and "k \<le> 52"
  shows "fl x = of_int (round_half_even (x * 2 ^ (52 - k))) / 2 ^ (52 - k)"
proof -
  have pos: "0 < \<bar>x\<bar>" using assms(1) by (smt (verit) zero_less_power)
  have "\<lfloor>log 2 \<bar>x\<bar>\<rfloor> = int k"
    using assms(1,2) pos by (simp add: floor_log_eq_powr_iff powr_realpow powr_add)
  moreover have "2 powr (real_of_int (int k) - 52) = 1 / (2::real) ^ (52 - k)"
  proof -
    have e: "real_of_int (int k) - 52 = - real (52 - k)" using assms(3) by simp
    have "2 powr (real_of_int (int k) - 52) = (2::real) powr (- real (52 - k))"
      by (simp only: e)
    also have "\<dots> = inverse (2 powr real (52 - k))"
      by (rule powr_minus)
    also have "\<dots> = inverse ((2::real) ^ (52 - k))"
      by (simp add: powr_realpow)
    finally show ?thesis by (simp add: inverse_eq_divide)
  qed
  ultimately show ?thesis
    using pos by (simp add: fl_def Let_def)
qed

text \<open>
  The double written \<^verbatim>\<open>333.3333333333333\<close> is \<open>5864062014805333 / 2 ^ 44\<close>. Its product
  with 540 lies less than half a unit in the last place below 180000 and rounds to it.
\<close>

lemma fl_sample_product:
  "fl (540 * (5864062014805333 / 17592186044416)) = 180000"
  by (subst fl_eval[of 17]) (simp_all add: round_half_even_def)

lemma fl_twenty: "fl 20 = 20"
  using fl_int[of 20] by simp

lemma sample_numStars:
  "nat \<lfloor>fl (fl (540 * (5864062014805333 / 17592186044416)) / 9000)\<rfloor> = 20"
proof -
  have "fl (fl (540 * (5864062014805333 / 17592186044416)) / 9000) = fl 20"
    by (simp only: fl_sample_product) simp
  then show ?thesis by (simp only: fl_twenty) simp
qed

section \<open>Star counts of the field initializer\<close>

lemma pattern_forEach_length:
  "length (fst (pattern_forEach w h sc ox oy rnd ps (ss, cs, k))) = length ss + length ps"
  by (induction ps arbitrary: ss cs k) (auto split: prod.splits)

lemma pattern_forEach_refs:
  "length (fst (snd (pattern_forEach w h sc ox oy rnd ps (ss, cs, k)))) = length cs + length ps"
  by (induction ps arbitrary: ss cs k) (auto split: prod.splits)

lemma connect_next_push:
  "\<exists>c k'. connect_next ss cs rnd i (rs, k) = (rs @ [c], k')"
  by (simp add: connect_next_def Let_def split: prod.splits)

lemma connect_sequential_length:
  "length (fst (connect_sequential ss cs rnd i (rs, k))) = length rs + (length cs - 1 - i)"
proof (induction ss cs rnd i "(rs, k)" arbitrary: rs k rule: connect_sequential.induct)
  case (1 ss cs rnd i rs k)
  show ?case
  proof (cases "int i < int (length cs) - 1")
    case True
    obtain c k' where n: "connect_next ss cs rnd i (rs, k) = (rs @ [c], k')"
      using connect_next_push by blast
    have "length (fst (connect_sequential ss cs rnd (i + 1) (rs @ [c], k'))) =
            length (rs @ [c]) + (length cs - 1 - (i + 1))"
      using 1[OF True n] .
    then show ?thesis
      using True n by (subst connect_sequential.simps) auto
  next
    case False
    then show ?thesis by (subst connect_sequential.simps) auto
  qed
qed

lemma addConstellation_stars:
  "length (fst (addConstellation w h rnd ps sc ox oy (ss, rs, k))) = length ss + length ps"
proof -
  obtain ss' cs k1 where p: "pattern_forEach w h sc ox oy rnd ps (ss, [], k) = (ss', cs, k1)"
    by (cases "pattern_forEach w h sc ox oy rnd ps (ss, [], k)") auto
  have "length ss' = length ss + length ps"
    using pattern_forEach_length[of w h sc ox oy rnd ps ss "[]" k] p by simp
  then show ?thesis
    by (simp add: addConstellation_def p split: prod.splits)
qed

lemma addConstellation_roots:
  "length (fst (snd (addConstellation w h rnd ps sc ox oy (ss, rs, k)))) =
     length rs + (length ps - 1)"
proof -
  obtain ss' cs k1 where p: "pattern_forEach w h sc ox oy rnd ps (ss, [], k) = (ss', cs, k1)"
    by (cases "pattern_forEach w h sc ox oy rnd ps (ss, [], k)") auto
  have len: "length cs = length ps"
    using pattern_forEach_refs[of w h sc ox oy rnd ps ss "[]" k] p by simp
  obtain rs' k2 where c: "connect_sequential ss' cs rnd 0 (rs, k1) = (rs', k2)"
    by (cases "connect_sequential ss' cs rnd 0 (rs, k1)") auto
  have "length rs' = length rs + (length cs - 1)"
    using connect_sequential_length[of ss' cs rnd 0 rs k1] c by simp
  then show ?thesis
    by (simp add: addConstellation_def p c len)
qed

lemma push_random_star_push:
  "\<exists>s k'. push_random_star w h rnd (ss, k) = (ss @ [s], k')"
  by (simp add: push_random_star_def split: prod.splits)

lemma add_background_length:
  "length (fst (add_background w h rnd n i (ss, k))) = length ss + (nat n - i)"
proof (induction w h rnd n i "(ss, k)" arbitrary: ss k rule: add_background.induct)
  case (1 w h rnd n i ss k)
  show ?case
  proof (cases "int i < n")
    case True
    obtain s k' where p: "push_random_star w h rnd (ss, k) = (ss @ [s], k')"
      using push_random_star_push by blast
    have "length (fst (add_background w h rnd n (i + 1) (ss @ [s], k'))) =
            length (ss @ [s]) + (nat n - (i + 1))"
      using 1[OF True p] .
    then show ?thesis
      using True p by (subst add_background.simps) auto
  next
    case False
    then show ?thesis by (subst add_background.simps) auto
  qed
qed

lemma add_background_none: "n \<le> 0 \<Longrightarrow> add_background w h rnd n 0 st = st"
  by (simp add: add_background.simps)

text \<open>The loops over pairs only push connections: what was in \<open>roots\<close> stays in front.\<close>

lemma connect_pair_prefix:
  "\<exists>ext k'. connect_pair ss rnd i j (rs, k) = (rs @ ext, k')"
  by (auto simp: connect_pair_def Let_def split: prod.splits)

lemma connect_close_inner_prefix:
  "\<exists>ext k'. connect_close_inner ss rnd i j (rs, k) = (rs @ ext, k')"
proof (induction ss rnd i j "(rs, k)" arbitrary: rs k rule: connect_close_inner.induct)
  case (1 ss rnd i j rs k)
  show ?case
  proof (cases "j < length ss")
    case True
    obtain e1 k1 where st: "connect_pair ss rnd i j (rs, k) = (rs @ e1, k1)"
      using connect_pair_prefix by blast
    obtain e2 k2 where
      "connect_close_inner ss rnd i (j + 1) (rs @ e1, k1) = ((rs @ e1) @ e2, k2)"
      using 1[OF True st] by blast
    then show ?thesis
      using True st by (subst connect_close_inner.simps) simp
  next
    case False
    then show ?thesis by (subst connect_close_inner.simps) simp
  qed
qed

lemma connect_close_prefix:
  "\<exists>ext k'. connect_close ss rnd i (rs, k) = (rs @ ext, k')"
proof (induction ss rnd i "(rs, k)" arbitrary: rs k rule: connect_close.induct)
  case (1 ss rnd i rs k)
  show ?case
  proof (cases "i < length ss")
    case True
    obtain e1 k1 where st: "connect_close_inner ss rnd i (i + 1) (rs, k) = (rs @ e1, k1)"
      using connect_close_inner_prefix by blast
    obtain e2 k2 where "connect_close ss rnd (i + 1) (rs @ e1, k1) = ((rs @ e1) @ e2, k2)"
      using 1[OF True st] by blast
    then show ?thesis
      using True st by (subst connect_close.simps) simp
  next
    case False
    then show ?thesis by (subst connect_close.simps) simp
  qed
qed

text \<open>
  The stars of the field are those the background loop returns, and its connections start
  with those of the two constellations.
\<close>

lemma initSimulation_stages:
  fixes w h :: real and rnd :: rng and k :: nat
  defines "st1 \<equiv> addConstellation w h rnd CAPRICORN 300 (w * 0.1) (h * 0.1) ([], [], k)"
  defines "st2 \<equiv> addConstellation w h rnd CANCER 300 (w * 0.6) (h * 0.5) st1"
  defines "bg \<equiv> add_background w h rnd \<lfloor>fl (fl (w * h) / 9000)\<rfloor> 0 (fst st2, snd (snd st2))"
  shows "stars (fst (initSimulation w h rnd k)) = fst bg"
    and "\<exists>ext. roots (fst (initSimulation w h rnd k)) = fst (snd st2) @ ext"
proof -
  obtain ss2 rs2 k2 where s2: "st2 = (ss2, rs2, k2)" by (cases st2) auto
  obtain ss3 k3 where b: "bg = (ss3, k3)" by (cases bg) auto
  obtain ext k4 where c: "connect_close ss3 rnd 0 (rs2, k3) = (rs2 @ ext, k4)"
    using connect_close_prefix by blast
  have b': "add_background w h rnd \<lfloor>fl (fl (w * h) / 9000)\<rfloor> 0 (ss2, k2) = (ss3, k3)"
    using b s2 by (simp add: bg_def)
  have s2': "addConstellation w h rnd CANCER 300 (w * 0.6) (h * 0.5)
               (addConstellation w h rnd CAPRICORN 300 (w * 0.1) (h * 0.1) ([], [], k))
             = (ss2, rs2, k2)"
    using s2 by (simp add: st2_def st1_def)
  have "initSimulation w h rnd k = (\<lparr>stars = ss3, roots = rs2 @ ext\<rparr>, k4)"
    unfolding initSimulation_def Let_def s2' prod.case b' c ..
  then show "stars (fst (initSimulation w h rnd k)) = fst bg"
    and "\<exists>ext. roots (fst (initSimulation w h rnd k)) = fst (snd st2) @ ext"
    using b s2 by simp_all
qed

lemma pattern_stars_length:
  "length (fst (addConstellation w h rnd CANCER 300 ox2 oy2
                  (addConstellation w h rnd CAPRICORN 300 ox1 oy1 ([], [], k)))) = 14"
proof -
  obtain ss1 rs1 k1 where
    s1: "addConstellation w h rnd CAPRICORN 300 ox1 oy1 ([], [], k) = (ss1, rs1, k1)"
    by (cases "addConstellation w h rnd CAPRICORN 300 ox1 oy1 ([], [], k)") auto
  have "length ss1 = 9"
    using addConstellation_stars[of w h rnd CAPRICORN 300 ox1 oy1 "[]" "[]" k] s1
    by (simp add: CAPRICORN_def)
  then show ?thesis
    using addConstellation_stars[of w h rnd CANCER 300 ox2 oy2 ss1 rs1 k1]
    by (simp add: s1 CANCER_def)
qed

lemma pattern_roots_length:
  "length (fst (snd (addConstellation w h rnd CANCER 300 ox2 oy2
                  (addConstellation w h rnd CAPRICORN 300 ox1 oy1 ([], [], k))))) = 12"
proof -
  obtain ss1 rs1 k1 where
    s1: "addConstellation w h rnd CAPRICORN 300 ox1 oy1 ([], [], k) = (ss1, rs1, k1)"
    by (cases "addConstellation w h rnd CAPRICORN 300 ox1 oy1 ([], [], k)") auto
  have "length rs1 = 8"
    using addConstellation_roots[of w h rnd CAPRICORN 300 ox1 oy1 "[]" "[]" k] s1
    by (simp add: CAPRICORN_def)
  then show ?thesis
    using addConstellation_roots[of w h rnd CANCER 300 ox2 oy2 ss1 rs1 k1]
    by (simp add: s1 CANCER_def)
qed

lemma initSimulation_length_stars:
  "length (stars (fst (initSimulation w h rnd k))) = 14 + nat \<lfloor>fl (fl (w * h) / 9000)\<rfloor>"
proof -
  let ?st2 = "addConstellation w h rnd CANCER 300 (w * 0.6) (h * 0.5)
               (addConstellation w h rnd CAPRICORN 300 (w * 0.1) (h * 0.1) ([], [], k))"
  have "length (stars (fst (initSimulation w h rnd k))) =
          length (fst ?st2) + (nat \<lfloor>fl (fl (w * h) / 9000)\<rfloor> - 0)"
    unfolding initSimulation_stages(1) by (rule add_background_length)
  then show ?thesis by (simp add: pattern_stars_length)
qed

lemma initSimulation_length_roots:
  "12 \<le> length (roots (fst (initSimulation w h rnd k)))"
proof -
  obtain ext where "roots (fst (initSimulation w h rnd k)) =
      fst (snd (addConstellation w h rnd CANCER 300 (w * 0.6) (h * 0.5)
               (addConstellation w h rnd CAPRICORN 300 (w * 0.1) (h * 0.1) ([], [], k)))) @ ext"
    using initSimulation_stages(2) by blast
  then show ?thesis by (simp add: pattern_roots_length)
qed

lemma initSimulation_length_stars_int:
  assumes "0 \<le> a * b" and "a * b < 2 ^ 53"
  shows "length (stars (fst (initSimulation (of_int a) (of_int b) rnd k))) =
           14 + nat \<lfloor>real_of_int a * real_of_int b / 9000\<rfloor>"
proof -
  have "\<bar>a * b\<bar> < 2 ^ 53" using assms by simp
  then have "fl (real_of_int a * real_of_int b) = real_of_int (a * b)"
    using fl_int[of "a * b"] by simp
  then have "\<lfloor>fl (fl (real_of_int a * real_of_int b) / 9000)\<rfloor> =
               \<lfloor>real_of_int a * real_of_int b / 9000\<rfloor>"
    using floor_fl_div_9000[OF assms] by simp
  then show ?thesis by (simp add: initSimulation_length_stars)
qed

text \<open>
  Claim C4, as stated, fails: the code floors the rounded quotient of the rounded
  product. For the viewport 540 by 333.3333333333333 the product rounds up to 180000, so the
  field has 20 background stars and 34 stars, where the floor of the exact
  \<open>width * height / 9000\<close> is 19.
\<close>

theorem initSimulation_star_count_counterexample:
  "length (stars (fst (initSimulation 540 (5864062014805333 / 17592186044416) sample_rng 0)))
     = 34
   \<and> nat \<lfloor>540 * (5864062014805333 / 17592186044416) / (9000::real)\<rfloor> + 9 + 5 = 33"
proof -
  have "length (stars (fst (initSimulation 540 (5864062014805333 / 17592186044416)
          sample_rng 0))) = 14 + 20"
    by (simp only: initSimulation_length_stars sample_numStars)
  then show ?thesis by simp
qed

text \<open>
  Claim C4, amended. For every viewport whose area does not overflow, the initializer
  produces \<open>floor q\<close> background stars, where \<open>q\<close> is \<open>(width * height) / 9000\<close> as the
  code computes it, the product and the quotient each rounded to the nearest double, plus
  the stars of the two fixed patterns, nine for the first and five for the second. For a
  viewport of whole numbers with an area below \<open>2 ^ 53\<close> this is
  \<open>floor (width * height / 9000)\<close>; a 900 by 600 viewport gives 60 background stars and
  74 stars in all.
\<close>

theorem initSimulation_star_count:
  "(w * h < 2 ^ 1023 \<longrightarrow>
      length (stars (fst (initSimulation w h rnd k))) =
        nat \<lfloor>fl (fl (w * h) / 9000)\<rfloor> + length CAPRICORN + length CANCER)
   \<and> (0 \<le> a * b \<and> a * b < 2 ^ 53 \<longrightarrow>
      length (stars (fst (initSimulation (of_int a) (of_int b) rnd k))) =
        nat \<lfloor>real_of_int a * real_of_int b / 9000\<rfloor> + length CAPRICORN + length CANCER)
   \<and> length CAPRICORN = 9 \<and> length CANCER = 5
   \<and> nat \<lfloor>((900::real) * 600) / 9000\<rfloor> = 60
   \<and> length (stars (fst (initSimulation 900 600 rnd k))) = 74"
proof (intro conjI impI)
  show "length (stars (fst (initSimulation w h rnd k))) =
        nat \<lfloor>fl (fl (w * h) / 9000)\<rfloor> + length CAPRICORN + length CANCER"
    by (simp add: initSimulation_length_stars CAPRICORN_def CANCER_def)
  show "length (stars (fst (initSimulation (of_int a) (of_int b) rnd k))) =
        nat \<lfloor>real_of_int a * real_of_int b / 9000\<rfloor> + length CAPRICORN + length CANCER"
    if "0 \<le> a * b \<and> a * b < 2 ^ 53"
    using initSimulation_length_stars_int[of a b rnd k] that
    by (simp add: CAPRICORN_def CANCER_def)
  show "length CAPRICORN = 9" by (simp add: CAPRICORN_def)
  show "length CANCER = 5" by (simp add: CANCER_def)
  show "nat \<lfloor>((900::real) * 600) / 9000\<rfloor> = 60" by simp
  have "length (stars (fst (initSimulation (of_int 900) (of_int 600) rnd k))) =
          14 + nat \<lfloor>real_of_int 900 * real_of_int 600 / 9000\<rfloor>"
    by (rule initSimulation_length_stars_int) simp_all
  then show "length (stars (fst (initSimulation 900 600 rnd k))) = 74" by simp
qed

theorem initSimulation_star_count_witness:
  "(540::real) * (5864062014805333 / 17592186044416) < 2 ^ 1023
   \<and> length (stars (fst (initSimulation 540 (5864062014805333 / 17592186044416) sample_rng 0)))
       = 34
   \<and> (0::int) \<le> 1920 * 1080 \<and> (1920::int) * 1080 < 2 ^ 53
   \<and> length (stars (fst (initSimulation 1920 1080 sample_rng 0))) = 244"
proof -
  have h1: "(540::real) * (5864062014805333 / 17592186044416) < 2 ^ 1023" by simp
  have h2: "(0::int) \<le> 1920 * 1080 \<and> (1920::int) * 1080 < 2 ^ 53" by simp
  note t = initSimulation_star_count[of 540 "5864062014805333 / 17592186044416" sample_rng 0
      1920 1080]
  from t h1 have "length (stars (fst (initSimulation 540 (5864062014805333 / 17592186044416)
          sample_rng 0))) =
        nat \<lfloor>fl (fl (540 * (5864062014805333 / 17592186044416)) / 9000)\<rfloor>
          + length CAPRICORN + length CANCER"
    by blast
  then have a: "length (stars (fst (initSimulation 540 (5864062014805333 / 17592186044416)
          sample_rng 0))) = 34"
    by (simp only: sample_numStars) (simp add: CAPRICORN_def CANCER_def)
  from t h2 have "length (stars (fst (initSimulation (of_int 1920) (of_int 1080)
          sample_rng 0))) =
        nat \<lfloor>real_of_int 1920 * real_of_int 1080 / 9000\<rfloor> + length CAPRICORN + length CANCER"
    by blast
  then have b: "length (stars (fst (initSimulation 1920 1080 sample_rng 0))) = 244"
    by (simp add: CAPRICORN_def CANCER_def)
  from a b h1 h2 show ?thesis by blast
qed

text \<open>
  Claim C3, as stated, fails: the patterns are added whatever the viewport, so the field
  of a viewport of zero area has stars and connections.
\<close>

theorem initSimulation_zero_area_counterexample:
  "stars (fst (initSimulation 0 0 sample_rng 0)) \<noteq> []
   \<and> roots (fst (initSimulation 0 0 sample_rng 0)) \<noteq> []"
  using initSimulation_length_stars[of 0 0 sample_rng 0]
    initSimulation_length_roots[of 0 0 sample_rng 0] by auto

text \<open>
  Claim C3, amended. For a viewport of zero area (width or height zero) the field has no
  background star: its stars are exactly the fourteen stars of the two patterns, and its
  connections start with the twelve that chain them (connections between close pattern
  stars may follow).
\<close>

theorem initSimulation_zero_area:
  assumes "w = 0 \<or> h = 0"
  shows "stars (fst (initSimulation w h rnd k)) =
           fst (addConstellation w h rnd CANCER 300 (w * 0.6) (h * 0.5)
                 (addConstellation w h rnd CAPRICORN 300 (w * 0.1) (h * 0.1) ([], [], k)))
         \<and> length (stars (fst (initSimulation w h rnd k))) = 14
         \<and> (\<exists>ext. roots (fst (initSimulation w h rnd k)) =
               fst (snd (addConstellation w h rnd CANCER 300 (w * 0.6) (h * 0.5)
                 (addConstellation w h rnd CAPRICORN 300 (w * 0.1) (h * 0.1) ([], [], k))))
               @ ext)
         \<and> length (fst (snd (addConstellation w h rnd CANCER 300 (w * 0.6) (h * 0.5)
                 (addConstellation w h rnd CAPRICORN 300 (w * 0.1) (h * 0.1) ([], [], k)))))
             = 12
         \<and> 12 \<le> length (roots (fst (initSimulation w h rnd k)))"
proof -
  have "w * h = 0" using assms by auto
  then have z: "\<lfloor>fl (fl (w * h) / 9000)\<rfloor> = 0" by (simp add: fl_def)
  have "stars (fst (initSimulation w h rnd k)) =
           fst (addConstellation w h rnd CANCER 300 (w * 0.6) (h * 0.5)
                 (addConstellation w h rnd CAPRICORN 300 (w * 0.1) (h * 0.1) ([], [], k)))"
    unfolding initSimulation_stages(1) z by (simp add: add_background_none)
  then show ?thesis
    using initSimulation_length_stars[of w h rnd k] initSimulation_length_roots[of w h rnd k]
      initSimulation_stages(2)[of w h rnd k] pattern_roots_length
    by (simp add: z)
qed

theorem initSimulation_zero_area_witness:
  "((0::real) = 0 \<or> (0::real) = 0)
   \<and> length (stars (fst (initSimulation 0 0 sample_rng 0))) = 14
   \<and> 12 \<le> length (roots (fst (initSimulation 0 0 sample_rng 0)))"
proof -
  have z: "(0::real) = 0 \<or> (0::real) = 0" by simp
  from initSimulation_zero_area[OF z, of sample_rng 0] z show ?thesis by blast
qed

section \<open>Growth of a connection\<close>

lemma jle_trans: "jle a b \<Longrightarrow> jle b c \<Longrightarrow> jle a c"
  by (cases a; cases b; cases c) auto

lemma jle_refl: "a \<noteq> NaN \<Longrightarrow> jle a a"
  by (cases a) auto

lemma jle_nonneg_not_NaN: "jle (Fin 0) a \<Longrightarrow> a \<noteq> NaN"
  by (cases a) auto

lemma update_speed [simp]: "speed (RootConnection_update c) = speed c"
  by (simp add: RootConnection_update_def)

lemma funpow_update_speed [simp]: "speed ((RootConnection_update ^^ n) c) = speed c"
  by (induction n) simp_all

lemma update_progress_mono:
  assumes "jle (Fin 0) (speed c)" and "jle (Fin 0) (progress c)"
  shows "jle (progress c) (progress (RootConnection_update c))"
  using assms by (cases "progress c"; cases "speed c") (auto simp: RootConnection_update_def)

lemma update_progress_nonneg:
  assumes "jle (Fin 0) (speed c)" and "jle (Fin 0) (progress c)"
  shows "jle (Fin 0) (progress (RootConnection_update c))"
  using assms by (cases "progress c"; cases "speed c") (auto simp: RootConnection_update_def)

lemma funpow_progress_nonneg:
  assumes "jle (Fin 0) (speed c)" and "jle (Fin 0) (progress c)"
  shows "jle (Fin 0) (progress ((RootConnection_update ^^ n) c))"
  using assms by (induction n) (simp_all add: update_progress_nonneg)

lemma update_done: "jle (Fin 100) (progress c) \<Longrightarrow> RootConnection_update c = c"
  by (cases "progress c") (auto simp: RootConnection_update_def)

lemma funpow_update_done:
  "jle (Fin 100) (progress c) \<Longrightarrow> (RootConnection_update ^^ m) c = c"
  by (induction m) (simp_all add: update_done)

lemma update_progress_upper:
  assumes "jle (Fin 0) (speed c)" and "jle (Fin 0) (progress c)"
    and "jle (progress c) (jadd (Fin 100) (speed c))"
  shows "jle (progress (RootConnection_update c)) (jadd (Fin 100) (speed c))"
  using assms by (cases "progress c"; cases "speed c") (auto simp: RootConnection_update_def)

lemma funpow_progress_upper:
  assumes "jle (Fin 0) (speed c)" and "jle (Fin 0) (progress c)"
    and "jle (progress c) (jadd (Fin 100) (speed c))"
  shows "jle (progress ((RootConnection_update ^^ n) c)) (jadd (Fin 100) (speed c))"
  using assms
proof (induction n)
  case 0
  then show ?case by simp
next
  case (Suc n)
  then show ?case
    using update_progress_upper[of "(RootConnection_update ^^ n) c"]
      funpow_progress_nonneg[of c n] by simp
qed

lemma RootConnection_new_fields:
  "progress (fst (RootConnection_new s1 s2 d rnd k)) = Fin 0"
  "speed (fst (RootConnection_new s1 s2 d rnd k)) =
     jmul (Fin (0.5 + rnd k * 0.5)) (jdiv (Fin 100) (Fin d))"
  "startStar (fst (RootConnection_new s1 s2 d rnd k)) = s1"
  "endStar (fst (RootConnection_new s1 s2 d rnd k)) = s2"
  "maxDist (fst (RootConnection_new s1 s2 d rnd k)) = d"
  by (simp_all add: RootConnection_new_def Math_random_def)

text \<open>
  What the theorems below assume of a connection holds of every connection the
  constructor builds: the distance it is given is a \<open>Math_hypot\<close>, the random value is
  not negative.
\<close>

lemma Math_hypot_nonneg: "0 \<le> Math_hypot a b"
  by (simp add: Math_hypot_def)

lemma RootConnection_new_speed_nonneg:
  assumes "0 \<le> d" and "0 \<le> rnd k"
  shows "jle (Fin 0) (speed (fst (RootConnection_new s1 s2 d rnd k)))"
  using assms by (auto simp: RootConnection_new_fields)

lemma sample_connection:
  "speed (fst (RootConnection_new 2 3 (5/2) sample_rng 4)) = Fin 30"
  "progress (fst (RootConnection_new 2 3 (5/2) sample_rng 4)) = Fin 0"
  by (simp_all add: RootConnection_new_def Math_random_def sample_rng_def)

lemma sample_connection_record:
  "fst (RootConnection_new 2 3 (5/2) sample_rng 4) =
     \<lparr>startStar = 2, endStar = 3, progress = Fin 0, speed = Fin 30, maxDist = 5/2\<rparr>"
  by (simp add: RootConnection_new_def Math_random_def sample_rng_def)

lemma funpow_few:
  "(f ^^ 3) x = f (f (f x))"
  "(f ^^ 4) x = f (f (f (f x)))"
  "(f ^^ 5) x = f (f (f (f (f x))))"
  by (simp_all add: numeral_eq_Suc)

text \<open>
  Claim C1, as stated, fails: nothing clamps. A connection between two stars 2.5 pixels
  apart, built with the random value 1/2, has speed 30 and progress 120 after four steps.
\<close>

theorem progress_exceeds_100_counterexample:
  "progress ((RootConnection_update ^^ 4) (fst (RootConnection_new 2 3 (5/2) sample_rng 4)))
     = Fin 120
   \<and> \<not> jle (Fin 120) (Fin 100)"
  by (simp add: funpow_few sample_connection_record RootConnection_update_def)

text \<open>
  Claim C1, amended. For every connection whose speed is not negative and whose progress
  lies between 0 and 100 + speed (as when it is built, with progress 0), after every number
  of steps progress lies between 0 and 100 + speed: a step with progress below 100 adds
  the speed and clamps nothing, a step with progress at or above 100 leaves it.
\<close>

theorem progress_within_overshoot:
  assumes "jle (Fin 0) (speed c)" and "jle (Fin 0) (progress c)"
    and "jle (progress c) (jadd (Fin 100) (speed c))"
  shows "jle (Fin 0) (progress ((RootConnection_update ^^ n) c))
       \<and> jle (progress ((RootConnection_update ^^ n) c)) (jadd (Fin 100) (speed c))
       \<and> progress (RootConnection_update c) =
           (if jless (progress c) (Fin 100) then jadd (progress c) (speed c) else progress c)"
  using funpow_progress_nonneg[OF assms(1,2)] funpow_progress_upper[OF assms]
  by (simp add: RootConnection_update_def)

theorem progress_within_overshoot_witness:
  "jle (Fin 0) (speed (fst (RootConnection_new 2 3 (5/2) sample_rng 4)))
   \<and> jle (Fin 0) (progress (fst (RootConnection_new 2 3 (5/2) sample_rng 4)))
   \<and> jle (progress (fst (RootConnection_new 2 3 (5/2) sample_rng 4)))
        (jadd (Fin 100) (speed (fst (RootConnection_new 2 3 (5/2) sample_rng 4))))
   \<and> jle (Fin 0)
        (progress ((RootConnection_update ^^ 4) (fst (RootConnection_new 2 3 (5/2) sample_rng 4))))
   \<and> jle (progress ((RootConnection_update ^^ 4) (fst (RootConnection_new 2 3 (5/2) sample_rng 4))))
        (Fin 130)"
proof -
  let ?c = "fst (RootConnection_new 2 3 (5/2) sample_rng 4)"
  have h1: "jle (Fin 0) (speed ?c)" and h2: "jle (Fin 0) (progress ?c)"
    and h3: "jle (progress ?c) (jadd (Fin 100) (speed ?c))"
    by (simp_all add: sample_connection)
  from progress_within_overshoot[OF h1 h2 h3, of 4] h1 h2 h3
  show ?thesis by (simp add: sample_connection)
qed

text \<open>
  Claim C5. For every connection whose speed and progress are not negative (as when it is
  built), progress does not decrease over further steps, and once it has reached 100 no
  further step changes the connection.
\<close>

theorem progress_monotone:
  assumes "jle (Fin 0) (speed c)" and "jle (Fin 0) (progress c)"
  shows "jle (progress ((RootConnection_update ^^ n) c))
           (progress ((RootConnection_update ^^ (n + m)) c))
       \<and> (jle (Fin 100) (progress ((RootConnection_update ^^ n) c)) \<longrightarrow>
            (RootConnection_update ^^ (n + m)) c = (RootConnection_update ^^ n) c)"
proof
  show "jle (progress ((RootConnection_update ^^ n) c))
           (progress ((RootConnection_update ^^ (n + m)) c))"
  proof (induction m)
    case 0
    have "progress ((RootConnection_update ^^ n) c) \<noteq> NaN"
      using funpow_progress_nonneg[OF assms] jle_nonneg_not_NaN by blast
    then show ?case by (simp add: jle_refl)
  next
    case (Suc m)
    let ?d = "(RootConnection_update ^^ (n + m)) c"
    have "jle (progress ?d) (progress (RootConnection_update ?d))"
      using update_progress_mono[of ?d] funpow_progress_nonneg[OF assms] assms(1) by simp
    with Suc show ?case by (auto intro: jle_trans)
  qed
next
  show "jle (Fin 100) (progress ((RootConnection_update ^^ n) c)) \<longrightarrow>
            (RootConnection_update ^^ (n + m)) c = (RootConnection_update ^^ n) c"
    using funpow_update_done[of "(RootConnection_update ^^ n) c" m]
    by (simp add: funpow_add add.commute)
qed

lemma sample_connection_steps:
  "progress ((RootConnection_update ^^ 3) (fst (RootConnection_new 2 3 (5/2) sample_rng 4)))
     = Fin 90"
  "progress ((RootConnection_update ^^ 4) (fst (RootConnection_new 2 3 (5/2) sample_rng 4)))
     = Fin 120"
  "progress ((RootConnection_update ^^ 5) (fst (RootConnection_new 2 3 (5/2) sample_rng 4)))
     = Fin 120"
  by (simp_all add: funpow_few sample_connection_record RootConnection_update_def)

theorem progress_monotone_witness:
  "jle (Fin 0) (speed (fst (RootConnection_new 2 3 (5/2) sample_rng 4)))
   \<and> jle (Fin 0) (progress (fst (RootConnection_new 2 3 (5/2) sample_rng 4)))
   \<and> jle (Fin 90)
        (progress ((RootConnection_update ^^ 5) (fst (RootConnection_new 2 3 (5/2) sample_rng 4))))
   \<and> jle (Fin 100)
        (progress ((RootConnection_update ^^ 4) (fst (RootConnection_new 2 3 (5/2) sample_rng 4))))
   \<and> (RootConnection_update ^^ 6) (fst (RootConnection_new 2 3 (5/2) sample_rng 4))
       = (RootConnection_update ^^ 4) (fst (RootConnection_new 2 3 (5/2) sample_rng 4))"
proof -
  let ?c = "fst (RootConnection_new 2 3 (5/2) sample_rng 4)"
  have h1: "jle (Fin 0) (speed ?c)" and h2: "jle (Fin 0) (progress ?c)"
    by (simp_all add: sample_connection)
  have h4: "jle (Fin 100) (progress ((RootConnection_update ^^ 4) ?c))"
    by (simp add: sample_connection_steps)
  from progress_monotone[OF h1 h2, of 3 2] progress_monotone[OF h1 h2, of 4 2] h1 h2 h4
  show ?thesis by (simp add: sample_connection_steps)
qed

text \<open>
  Claim C6. A connection with speed 10 and progress 0 has progress exactly 100 after ten
  steps (90 after nine), and the eleventh step leaves it at exactly 100.
\<close>

theorem progress_speed_10:
  "progress ((RootConnection_update ^^ 10) (c\<lparr>progress := Fin 0, speed := Fin 10\<rparr>)) = Fin 100
   \<and> progress ((RootConnection_update ^^ 11) (c\<lparr>progress := Fin 0, speed := Fin 10\<rparr>)) = Fin 100
   \<and> progress ((RootConnection_update ^^ 9) (c\<lparr>progress := Fin 0, speed := Fin 10\<rparr>)) = Fin 90"
  by (simp add: eval_nat_numeral RootConnection_update_def)

section \<open>The connections of an initialized field\<close>

text \<open>
  Every connection the initializer creates refers to stars of the field, has progress 0
  and a speed that is not negative, when the random values are not negative. So the
  hypotheses of the theorems on growth hold of every connection of a field, and
  \<open>RootConnection_draw\<close> reads the star array within its bounds.
\<close>

lemma connection_built_mono: "connection_built n c \<Longrightarrow> n \<le> m \<Longrightarrow> connection_built m c"
  by (auto simp: connection_built_def)

lemma RootConnection_new_built:
  assumes "0 \<le> rnd k" and "0 \<le> d" and "a < n" and "b < n"
  shows "connection_built n (fst (RootConnection_new a b d rnd k))"
  using assms RootConnection_new_speed_nonneg[of d rnd k a b]
  by (simp add: connection_built_def RootConnection_new_fields)

lemma pattern_forEach_refs_bound:
  assumes "\<forall>r\<in>set cs. r < length ss"
  shows "\<forall>r\<in>set (fst (snd (pattern_forEach w h sc ox oy rnd ps (ss, cs, k)))).
           r < length (fst (pattern_forEach w h sc ox oy rnd ps (ss, cs, k)))"
  using assms
proof (induction ps arbitrary: ss cs k)
  case Nil
  then show ?case by simp
next
  case (Cons p ps)
  obtain s k' where n: "Star_new w h (Some (fst p * sc + ox)) (Some (snd p * sc + oy)) rnd k = (s, k')"
    by (cases "Star_new w h (Some (fst p * sc + ox)) (Some (snd p * sc + oy)) rnd k") auto
  have "\<forall>r\<in>set (cs @ [length ss]). r < length (ss @ [s])"
    using Cons.prems by (auto simp: less_Suc_eq)
  from Cons.IH[OF this, of k'] show ?case by (simp add: n)
qed

lemma connect_next_built:
  assumes "\<forall>i. 0 \<le> rnd i" and "\<forall>r\<in>set cs. r < n" and "\<forall>c\<in>set rs. connection_built n c"
    and "int i < int (length cs) - 1"
  shows "\<forall>c\<in>set (fst (connect_next ss cs rnd i (rs, k))). connection_built n c"
proof -
  define d where "d = Math_hypot (star_x (ss ! (cs ! i)) - star_x (ss ! (cs ! (i + 1))))
                        (star_y (ss ! (cs ! i)) - star_y (ss ! (cs ! (i + 1))))"
  have "cs ! i < n" "cs ! (i + 1) < n"
    using assms(2,4) by auto
  moreover have "0 \<le> rnd k" "0 \<le> d"
    using assms(1) by (simp_all add: d_def Math_hypot_nonneg)
  ultimately have "connection_built n (fst (RootConnection_new (cs ! i) (cs ! (i + 1)) d rnd k))"
    by (rule_tac RootConnection_new_built)
  then show ?thesis
    using assms(3) by (auto simp: connect_next_def Let_def d_def split: prod.splits)
qed

lemma connect_sequential_built:
  assumes "\<forall>i. 0 \<le> rnd i" and "\<forall>r\<in>set cs. r < n" and "\<forall>c\<in>set rs. connection_built n c"
  shows "\<forall>c\<in>set (fst (connect_sequential ss cs rnd i (rs, k))). connection_built n c"
  using assms
proof (induction ss cs rnd i "(rs, k)" arbitrary: rs k rule: connect_sequential.induct)
  case (1 ss cs rnd i rs k)
  show ?case
  proof (cases "int i < int (length cs) - 1")
    case True
    obtain c k' where n: "connect_next ss cs rnd i (rs, k) = (rs @ [c], k')"
      using connect_next_push by blast
    have "\<forall>x\<in>set (rs @ [c]). connection_built n x"
      using connect_next_built[OF "1.prems" True, of ss k] n by simp
    from "1.hyps"[OF True n "1.prems"(1,2) this]
    show ?thesis
      using True n by (subst connect_sequential.simps) simp
  next
    case False
    then show ?thesis using "1.prems" by (subst connect_sequential.simps) auto
  qed
qed

lemma addConstellation_built:
  assumes "\<forall>i. 0 \<le> rnd i" and "\<forall>c\<in>set rs. connection_built (length ss) c"
  shows "\<forall>c\<in>set (fst (snd (addConstellation w h rnd ps sc ox oy (ss, rs, k)))).
           connection_built (length (fst (addConstellation w h rnd ps sc ox oy (ss, rs, k)))) c"
proof -
  obtain ss' cs k1 where p: "pattern_forEach w h sc ox oy rnd ps (ss, [], k) = (ss', cs, k1)"
    by (cases "pattern_forEach w h sc ox oy rnd ps (ss, [], k)") auto
  have len: "length ss' = length ss + length ps"
    using pattern_forEach_length[of w h sc ox oy rnd ps ss "[]" k] p by simp
  have refs: "\<forall>r\<in>set cs. r < length ss'"
    using pattern_forEach_refs_bound[of "[]" ss w h sc ox oy rnd ps k] p by simp
  have old: "\<forall>c\<in>set rs. connection_built (length ss') c"
    using assms(2) len by (auto intro: connection_built_mono)
  obtain rs' k2 where c: "connect_sequential ss' cs rnd 0 (rs, k1) = (rs', k2)"
    by (cases "connect_sequential ss' cs rnd 0 (rs, k1)") auto
  have "\<forall>c\<in>set rs'. connection_built (length ss') c"
    using connect_sequential_built[OF assms(1) refs old, of ss' 0 k1] c by simp
  then show ?thesis
    by (simp add: addConstellation_def p c)
qed

lemma connect_pair_built:
  assumes "\<forall>i. 0 \<le> rnd i" and "i < length ss" and "j < length ss"
    and "\<forall>c\<in>set rs. connection_built (length ss) c"
  shows "\<forall>c\<in>set (fst (connect_pair ss rnd i j (rs, k))). connection_built (length ss) c"
proof -
  define d where "d = Math_hypot (star_x (ss ! i) - star_x (ss ! j))
                     (star_y (ss ! i) - star_y (ss ! j))"
  have "connection_built (length ss) (fst (RootConnection_new i j d rnd (Suc k)))"
    using assms(1,2,3) by (intro RootConnection_new_built) (simp_all add: d_def Math_hypot_nonneg)
  then show ?thesis
    using assms(4)
    by (auto simp: connect_pair_def Let_def d_def Math_random_def split: prod.splits)
qed

lemma connect_close_inner_built:
  assumes "\<forall>i. 0 \<le> rnd i" and "i < length ss" and "\<forall>c\<in>set rs. connection_built (length ss) c"
  shows "\<forall>c\<in>set (fst (connect_close_inner ss rnd i j (rs, k))). connection_built (length ss) c"
  using assms
proof (induction ss rnd i j "(rs, k)" arbitrary: rs k rule: connect_close_inner.induct)
  case (1 ss rnd i j rs k)
  show ?case
  proof (cases "j < length ss")
    case True
    obtain rs1 k1 where st: "connect_pair ss rnd i j (rs, k) = (rs1, k1)"
      by (cases "connect_pair ss rnd i j (rs, k)") auto
    have "\<forall>c\<in>set rs1. connection_built (length ss) c"
      using connect_pair_built[OF "1.prems"(1,2) True "1.prems"(3), of k] st by simp
    from "1.hyps"[OF True st "1.prems"(1,2) this]
    show ?thesis
      using True st by (subst connect_close_inner.simps) simp
  next
    case False
    then show ?thesis using "1.prems" by (subst connect_close_inner.simps) simp
  qed
qed

lemma connect_close_built:
  assumes "\<forall>i. 0 \<le> rnd i" and "\<forall>c\<in>set rs. connection_built (length ss) c"
  shows "\<forall>c\<in>set (fst (connect_close ss rnd i (rs, k))). connection_built (length ss) c"
  using assms
proof (induction ss rnd i "(rs, k)" arbitrary: rs k rule: connect_close.induct)
  case (1 ss rnd i rs k)
  show ?case
  proof (cases "i < length ss")
    case True
    obtain rs1 k1 where st: "connect_close_inner ss rnd i (i + 1) (rs, k) = (rs1, k1)"
      by (cases "connect_close_inner ss rnd i (i + 1) (rs, k)") auto
    have "\<forall>c\<in>set rs1. connection_built (length ss) c"
      using connect_close_inner_built[OF "1.prems"(1) True "1.prems"(2), of "i + 1" k] st
      by simp
    from "1.hyps"[OF True st "1.prems"(1) this]
    show ?thesis
      using True st by (subst connect_close.simps) simp
  next
    case False
    then show ?thesis using "1.prems" by (subst connect_close.simps) simp
  qed
qed

lemma add_background_grows:
  "length ss \<le> length (fst (add_background w h rnd n i (ss, k)))"
  by (simp add: add_background_length)

lemma initSimulation_built:
  assumes "\<forall>i. 0 \<le> rnd i"
  shows "\<forall>c\<in>set (roots (fst (initSimulation w h rnd k))).
           connection_built (length (stars (fst (initSimulation w h rnd k)))) c"
proof -
  obtain ss1 rs1 k1 where
    s1: "addConstellation w h rnd CAPRICORN 300 (w * 0.1) (h * 0.1) ([], [], k) = (ss1, rs1, k1)"
    by (cases "addConstellation w h rnd CAPRICORN 300 (w * 0.1) (h * 0.1) ([], [], k)") auto
  obtain ss2 rs2 k2 where
    s2: "addConstellation w h rnd CANCER 300 (w * 0.6) (h * 0.5) (ss1, rs1, k1) = (ss2, rs2, k2)"
    by (cases "addConstellation w h rnd CANCER 300 (w * 0.6) (h * 0.5) (ss1, rs1, k1)") auto
  obtain ss3 k3 where
    b: "add_background w h rnd \<lfloor>fl (fl (w * h) / 9000)\<rfloor> 0 (ss2, k2) = (ss3, k3)"
    by (cases "add_background w h rnd \<lfloor>fl (fl (w * h) / 9000)\<rfloor> 0 (ss2, k2)") auto
  obtain rs3 k4 where c: "connect_close ss3 rnd 0 (rs2, k3) = (rs3, k4)"
    by (cases "connect_close ss3 rnd 0 (rs2, k3)") auto
  have i: "initSimulation w h rnd k = (\<lparr>stars = ss3, roots = rs3\<rparr>, k4)"
    unfolding initSimulation_def Let_def s1 s2 prod.case b c ..
  have "\<forall>c\<in>set rs1. connection_built (length ss1) c"
    using addConstellation_built[OF assms, of "[]" "[]" w h CAPRICORN 300 "w * 0.1" "h * 0.1" k,
        unfolded s1]
    by simp
  then have "\<forall>c\<in>set rs2. connection_built (length ss2) c"
    using addConstellation_built[OF assms, of rs1 ss1 w h CANCER 300 "w * 0.6" "h * 0.5" k1,
        unfolded s2]
    by simp
  moreover have "length ss2 \<le> length ss3"
    using add_background_grows[of ss2 w h rnd "\<lfloor>fl (fl (w * h) / 9000)\<rfloor>" 0 k2] by (simp add: b)
  ultimately have "\<forall>c\<in>set rs2. connection_built (length ss3) c"
    by (auto intro: connection_built_mono)
  then have "\<forall>c\<in>set rs3. connection_built (length ss3) c"
    using connect_close_built[OF assms, of rs2 ss3 0 k3] by (simp add: c)
  then show ?thesis by (simp add: i)
qed

section \<open>Drawing a connection\<close>

text \<open>
  Claim C7. The renderer draws nothing for a connection whose progress is at most 0;
  otherwise it strokes one line from the start star to the point interpolated from the
  start star toward the end star at the fraction progress / 100, with the alpha 0.15 times
  that fraction. For a finite positive progress \<open>p\<close> the end point and the alpha are the
  real numbers \<open>x1 + (x2 - x1) * (p / 100)\<close> and \<open>0.15 * (p / 100)\<close>.
\<close>

theorem RootConnection_draw_line:
  "(jle (progress c) (Fin 0) \<longrightarrow> RootConnection_draw ss c = [])
   \<and> (\<not> jle (progress c) (Fin 0) \<longrightarrow>
        RootConnection_draw ss c =
          [StrokeStyle (RGBA 180 100 255 (jmul (Fin 0.15) (jdiv (progress c) (Fin 100)))),
           LineWidth 0.8,
           BeginPath,
           MoveTo (Fin (star_x (ss ! startStar c))) (Fin (star_y (ss ! startStar c))),
           LineTo (interpolate (star_x (ss ! startStar c)) (star_x (ss ! endStar c))
                     (jdiv (progress c) (Fin 100)))
                  (interpolate (star_y (ss ! startStar c)) (star_y (ss ! endStar c))
                     (jdiv (progress c) (Fin 100))),
           Stroke])
   \<and> (progress c = Fin p \<and> 0 < p \<longrightarrow>
        RootConnection_draw ss c =
          [StrokeStyle (RGBA 180 100 255 (Fin (0.15 * (p / 100)))),
           LineWidth 0.8,
           BeginPath,
           MoveTo (Fin (star_x (ss ! startStar c))) (Fin (star_y (ss ! startStar c))),
           LineTo (Fin (star_x (ss ! startStar c)
                        + (star_x (ss ! endStar c) - star_x (ss ! startStar c)) * (p / 100)))
                  (Fin (star_y (ss ! startStar c)
                        + (star_y (ss ! endStar c) - star_y (ss ! startStar c)) * (p / 100))),
           Stroke])"
  by (auto simp: RootConnection_draw_def interpolate_def Let_def)

theorem RootConnection_draw_line_witness:
  "jle (Fin 0) (Fin 0)
   \<and> RootConnection_draw
        [\<lparr>star_x = 0, star_y = 0, star_size = 1, brightness = 1/2, flickerSpeed = 1/20\<rparr>,
         \<lparr>star_x = 10, star_y = 20, star_size = 1, brightness = 1/2, flickerSpeed = 1/20\<rparr>]
        \<lparr>startStar = 0, endStar = 1, progress = Fin 0, speed = Fin 2, maxDist = 5\<rparr> = []
   \<and> \<not> jle (Fin 50) (Fin 0)
   \<and> RootConnection_draw
        [\<lparr>star_x = 0, star_y = 0, star_size = 1, brightness = 1/2, flickerSpeed = 1/20\<rparr>,
         \<lparr>star_x = 10, star_y = 20, star_size = 1, brightness = 1/2, flickerSpeed = 1/20\<rparr>]
        \<lparr>startStar = 0, endStar = 1, progress = Fin 50, speed = Fin 2, maxDist = 5\<rparr> =
       [StrokeStyle (RGBA 180 100 255 (Fin (3/40))), LineWidth 0.8, BeginPath,
        MoveTo (Fin 0) (Fin 0), LineTo (Fin 5) (Fin 10), Stroke]"
proof -
  let ?ss = "[\<lparr>star_x = 0, star_y = 0, star_size = 1, brightness = 1/2, flickerSpeed = 1/20\<rparr>,
         \<lparr>star_x = 10, star_y = 20, star_size = 1, brightness = 1/2, flickerSpeed = 1/20\<rparr>]"
  let ?c0 = "\<lparr>startStar = 0, endStar = 1, progress = Fin 0, speed = Fin 2, maxDist = 5\<rparr>"
  let ?c50 = "\<lparr>startStar = 0, endStar = 1, progress = Fin 50, speed = Fin 2, maxDist = 5\<rparr>"
  from RootConnection_draw_line[of ?c0 ?ss 1] RootConnection_draw_line[of ?c50 ?ss 50]
  show ?thesis by (simp add: interpolate_def)
qed

section \<open>Flicker of a star\<close>

lemma Star_new_fields:
  "brightness (fst (Star_new w h xo yo rnd k)) =
     rnd (k + (if xo = None then 1 else 0) + (if yo = None then 1 else 0) + 1)"
  "flickerSpeed (fst (Star_new w h xo yo rnd k)) =
     0.02 + rnd (k + (if xo = None then 1 else 0) + (if yo = None then 1 else 0) + 2) * 0.05"
  by (cases xo; cases yo; simp add: Star_new_def Math_random_def)+

lemma Star_update_fields:
  "brightness (Star_update s) = brightness s + flickerSpeed s"
  "flickerSpeed (Star_update s) =
     (if brightness s + flickerSpeed s > 1 \<or> brightness s + flickerSpeed s < 0.2
      then - flickerSpeed s else flickerSpeed s)"
  "star_x (Star_update s) = star_x s"
  "star_y (Star_update s) = star_y s"
  "star_size (Star_update s) = star_size s"
  by (simp_all add: Star_update_def Let_def)

text \<open>
  The invariant of the reflecting walk, for a step size below 0.2: while the star
  brightens, brightness is in \<open>[0, 1]\<close>; while it dims, brightness is within one step
  above 1 and at least one step above 0.
\<close>

lemma Star_update_inv:
  assumes "0.02 \<le> \<bar>flickerSpeed s\<bar>" and "\<bar>flickerSpeed s\<bar> < 0.07"
    and "(0 < flickerSpeed s \<and> 0 \<le> brightness s \<and> brightness s \<le> 1) \<or>
         (flickerSpeed s < 0 \<and> \<bar>flickerSpeed s\<bar> \<le> brightness s
            \<and> brightness s \<le> 1 + \<bar>flickerSpeed s\<bar>)"
  shows "0.02 \<le> \<bar>flickerSpeed (Star_update s)\<bar> \<and> \<bar>flickerSpeed (Star_update s)\<bar> < 0.07
     \<and> ((0 < flickerSpeed (Star_update s) \<and> 0 \<le> brightness (Star_update s)
            \<and> brightness (Star_update s) \<le> 1) \<or>
         (flickerSpeed (Star_update s) < 0
            \<and> \<bar>flickerSpeed (Star_update s)\<bar> \<le> brightness (Star_update s)
            \<and> brightness (Star_update s) \<le> 1 + \<bar>flickerSpeed (Star_update s)\<bar>))"
  using assms unfolding Star_update_fields by (auto simp: abs_if split: if_splits)

lemma funpow_Star_update_inv:
  assumes "0.02 \<le> \<bar>flickerSpeed s\<bar>" and "\<bar>flickerSpeed s\<bar> < 0.07"
    and "(0 < flickerSpeed s \<and> 0 \<le> brightness s \<and> brightness s \<le> 1) \<or>
         (flickerSpeed s < 0 \<and> \<bar>flickerSpeed s\<bar> \<le> brightness s
            \<and> brightness s \<le> 1 + \<bar>flickerSpeed s\<bar>)"
  shows "0.02 \<le> \<bar>flickerSpeed ((Star_update ^^ n) s)\<bar>
     \<and> \<bar>flickerSpeed ((Star_update ^^ n) s)\<bar> < 0.07
     \<and> ((0 < flickerSpeed ((Star_update ^^ n) s) \<and> 0 \<le> brightness ((Star_update ^^ n) s)
            \<and> brightness ((Star_update ^^ n) s) \<le> 1) \<or>
         (flickerSpeed ((Star_update ^^ n) s) < 0
            \<and> \<bar>flickerSpeed ((Star_update ^^ n) s)\<bar> \<le> brightness ((Star_update ^^ n) s)
            \<and> brightness ((Star_update ^^ n) s)
                  \<le> 1 + \<bar>flickerSpeed ((Star_update ^^ n) s)\<bar>))"
proof (induction n)
  case 0
  show ?case using assms by simp
next
  case (Suc n)
  show ?case
    using Star_update_inv[of "(Star_update ^^ n) s"] Suc by simp
qed

lemma sample_rng_range: "\<forall>i. 0 \<le> sample_rng i \<and> sample_rng i < 1"
proof
  fix i :: nat
  have "i mod 8 < 8" by simp
  then have "real (i mod 8) < 8" by linarith
  then show "0 \<le> sample_rng i \<and> sample_rng i < 1"
    by (simp add: sample_rng_def)
qed


lemma Star_new_random:
  "fst (Star_new w h None None rnd k) =
     \<lparr>star_x = rnd k * w, star_y = rnd (k + 1) * h, star_size = rnd (k + 2) * 1.5 + 0.5,
      brightness = rnd (k + 3), flickerSpeed = 0.02 + rnd (k + 4) * 0.05\<rparr>"
  by (simp add: Star_new_def Math_random_def numeral_eq_Suc)

lemma sample_star_6:
  "fst (Star_new 900 600 None None sample_rng 6) =
     \<lparr>star_x = 675, star_y = 525, star_size = 1/2, brightness = 1/8, flickerSpeed = 13/400\<rparr>"
  by (simp add: Star_new_random sample_rng_def)







text \<open>
  Outside the amended claim. The constructor draws brightness from \<open>[0, 1)\<close>, so a star
  can start below the band; one that starts more than a step below it never enters it,
  because its speed is negated at every step. The star built from the sample sequence at
  position 6 is one: its brightness alternates between 1/8 and 63/400.
\<close>

lemma dim_star_inv:
  assumes "(0 < flickerSpeed s \<and> brightness s + flickerSpeed s < 0.2) \<or>
           (flickerSpeed s < 0 \<and> brightness s < 0.2)"
  shows "(0 < flickerSpeed (Star_update s)
            \<and> brightness (Star_update s) + flickerSpeed (Star_update s) < 0.2) \<or>
         (flickerSpeed (Star_update s) < 0 \<and> brightness (Star_update s) < 0.2)"
  using assms unfolding Star_update_fields by (auto split: if_splits)

lemma dim_star_stays_dim:
  assumes "0 < flickerSpeed s" and "brightness s + flickerSpeed s < 0.2"
  shows "brightness ((Star_update ^^ n) s) < 0.2"
proof -
  have "(0 < flickerSpeed ((Star_update ^^ n) s)
            \<and> brightness ((Star_update ^^ n) s) + flickerSpeed ((Star_update ^^ n) s) < 0.2) \<or>
         (flickerSpeed ((Star_update ^^ n) s) < 0 \<and> brightness ((Star_update ^^ n) s) < 0.2)"
  proof (induction n)
    case 0
    show ?case using assms by simp
  next
    case (Suc n)
    show ?case using dim_star_inv[OF Suc] by simp
  qed
  then show ?thesis by linarith
qed

lemma sample_dim_star:
  "brightness ((Star_update ^^ n) (fst (Star_new 900 600 None None sample_rng 6))) < 0.2"
  by (rule dim_star_stays_dim) (simp_all add: sample_star_6)

text \<open>
  Of every star the constructor builds from random values in \<open>[0, 1)\<close>, also of those it
  starts below the band: brightness is never negative and stays below 1.07.
\<close>

lemma built_star_brightness:
  assumes "\<forall>i. 0 \<le> rnd i \<and> rnd i < 1"
  shows "0 \<le> brightness ((Star_update ^^ n) (fst (Star_new w h xo yo rnd k)))
       \<and> brightness ((Star_update ^^ n) (fst (Star_new w h xo yo rnd k))) < 1.07
       \<and> brightness (fst (Star_new w h xo yo rnd k)) < 1
       \<and> brightness (Star_update s) = brightness s + flickerSpeed s
       \<and> flickerSpeed (Star_update s) =
           (if brightness (Star_update s) > 1 \<or> brightness (Star_update s) < 0.2
            then - flickerSpeed s else flickerSpeed s)"
proof -
  let ?s0 = "fst (Star_new w h xo yo rnd k)"
  have b: "0 \<le> brightness ?s0" "brightness ?s0 < 1"
    using assms by (simp_all add: Star_new_fields)
  have f: "0.02 \<le> flickerSpeed ?s0" "flickerSpeed ?s0 < 0.07"
    using assms[rule_format,
        of "k + (if xo = None then 1 else 0) + (if yo = None then 1 else 0) + 2"]
    by (simp_all add: Star_new_fields)
  have "0.02 \<le> \<bar>flickerSpeed ?s0\<bar>" "\<bar>flickerSpeed ?s0\<bar> < 0.07"
    "(0 < flickerSpeed ?s0 \<and> 0 \<le> brightness ?s0 \<and> brightness ?s0 \<le> 1) \<or>
         (flickerSpeed ?s0 < 0 \<and> \<bar>flickerSpeed ?s0\<bar> \<le> brightness ?s0
            \<and> brightness ?s0 \<le> 1 + \<bar>flickerSpeed ?s0\<bar>)"
    using b f by auto
  from funpow_Star_update_inv[OF this, of n]
  have "0 \<le> brightness ((Star_update ^^ n) ?s0)" "brightness ((Star_update ^^ n) ?s0) < 1.07"
    by auto
  then show ?thesis using b by (simp add: Star_update_fields)
qed

text \<open>
  Claim C10. For every star, whatever its brightness (negative values included), the alpha
  of the fill colour the renderer sets is the absolute value of brightness, which is not
  negative; so it is after any number of steps.
\<close>

theorem Star_draw_alpha:
  "fill_alphas (Star_draw s) = [Fin \<bar>brightness s\<bar>]
   \<and> jle (Fin 0) (Fin \<bar>brightness s\<bar>)
   \<and> fill_alphas (Star_draw ((Star_update ^^ n) s)) = [Fin \<bar>brightness ((Star_update ^^ n) s)\<bar>]
   \<and> fill_alphas (Star_draw (s\<lparr>brightness := - 0.3\<rparr>)) = [Fin 0.3]"
  by (simp add: Star_draw_def)

section \<open>What a frame changes\<close>

text \<open>
  Claim C9. A step changes only derived visual state: a star's update leaves its position
  and size and can change only brightness and flicker speed; a connection's update leaves
  its two star references, its length and its speed and can change only progress; and so
  a whole frame leaves these fields of every star and connection of the field.
\<close>

theorem update_frame:
  "star_x (Star_update s) = star_x s \<and> star_y (Star_update s) = star_y s
   \<and> star_size (Star_update s) = star_size s
   \<and> Star_update s = s\<lparr>brightness := brightness (Star_update s),
                         flickerSpeed := flickerSpeed (Star_update s)\<rparr>
   \<and> startStar (RootConnection_update c) = startStar c
   \<and> endStar (RootConnection_update c) = endStar c
   \<and> maxDist (RootConnection_update c) = maxDist c
   \<and> speed (RootConnection_update c) = speed c
   \<and> RootConnection_update c = c\<lparr>progress := progress (RootConnection_update c)\<rparr>
   \<and> map star_x (stars (sim (draw w))) = map star_x (stars (sim w))
   \<and> map star_y (stars (sim (draw w))) = map star_y (stars (sim w))
   \<and> map star_size (stars (sim (draw w))) = map star_size (stars (sim w))
   \<and> map startStar (roots (sim (draw w))) = map startStar (roots (sim w))
   \<and> map endStar (roots (sim (draw w))) = map endStar (roots (sim w))
   \<and> map maxDist (roots (sim (draw w))) = map maxDist (roots (sim w))
   \<and> map speed (roots (sim (draw w))) = map speed (roots (sim w))"
  by (simp add: Star_update_def RootConnection_update_def draw_def requestAnimationFrame_def
        Let_def comp_def)

section \<open>Teardown\<close>

lemma run_initSimulation_host [simp]:
  "timeouts (run_initSimulation rnd w) = timeouts w"
  "frame_requests (run_initSimulation rnd w) = frame_requests w"
  "next_id (run_initSimulation rnd w) = next_id w"
  "stopped (run_initSimulation rnd w) = stopped w"
  "canvas (run_initSimulation rnd w) = canvas w"
  "scale_calls (run_initSimulation rnd w) = scale_calls w"
  "observed (run_initSimulation rnd w) = observed w"
  "resize_listener (run_initSimulation rnd w) = resize_listener w"
  "dpr (run_initSimulation rnd w) = dpr w"
  "raf (run_initSimulation rnd w) = raf w"
  by (simp_all add: run_initSimulation_def split: prod.splits)

lemma draw_stopped: "stopped w \<Longrightarrow> draw w = w"
  by (simp add: draw_def)

lemma host_step_stopped:
  "stopped w \<Longrightarrow> stopped (host_step rnd e w) \<and> canvas (host_step rnd e w) = canvas w"
  by (cases e) (simp_all add: draw_stopped resize_def)

lemma host_run_stopped:
  "stopped w \<Longrightarrow> stopped (host_run rnd es w) \<and> canvas (host_run rnd es w) = canvas w"
proof (induction es arbitrary: w)
  case Nil
  then show ?case by simp
next
  case (Cons e es)
  from host_step_stopped[OF Cons.prems, of rnd e]
  have "stopped (host_step rnd e w)" and c: "canvas (host_step rnd e w) = canvas w" by auto
  with Cons.IH[of "host_step rnd e w"] show ?case by simp
qed

lemma teardown_fields:
  "stopped (teardown w)"
  "canvas (teardown w) = canvas w"
  "frame_requests (teardown w) = removeAll (raf w) (frame_requests w)"
  "\<not> observed (teardown w)"
  "\<not> resize_listener (teardown w)"
  "timeouts (teardown w) = timeouts w"
  "scale_calls (teardown w) = scale_calls w"
  "dpr (teardown w) = dpr w"
  by (simp_all add: teardown_def cancelAnimationFrame_def Let_def)

text \<open>
  After teardown nothing is drawn any more, whatever the host does: the drawing
  operations issued stay those issued before.
\<close>

lemma no_draw_after_teardown:
  "canvas (host_run rnd es (teardown w)) = canvas w"
  using host_run_stopped[of "teardown w" rnd es] by (simp add: teardown_fields)

lemma mount_fields:
  "snd (mount True True True d rnd w)"
  "timeouts (fst (mount True True True d rnd w)) = timeouts w @ [next_id w]"
  "frame_requests (fst (mount True True True d rnd w)) = frame_requests w @ [next_id w + 1]"
  "raf (fst (mount True True True d rnd w)) = next_id w + 1"
  "observed (fst (mount True True True d rnd w))"
  "resize_listener (fst (mount True True True d rnd w))"
  "scale_calls (fst (mount True True True d rnd w)) = scale_calls w"
  "dpr (fst (mount True True True d rnd w)) = max 1 (if d = 0 then 1 else d)"
  by (simp_all add: mount_def setTimeout_def requestAnimationFrame_def Let_def
        split: prod.splits)

lemma unmount_mount:
  "unmount (mount True True True d rnd w) = teardown (fst (mount True True True d rnd w))"
  using mount_fields(1)[of d rnd w]
  by (cases "mount True True True d rnd w") (simp add: unmount_def)

text \<open>When a guard returns early, nothing was registered and unmounting changes nothing.\<close>

lemma unmount_guarded:
  "\<not> (has_el \<and> has_container \<and> has_ctx) \<Longrightarrow>
     unmount (mount has_el has_container has_ctx d rnd w) = w"
  by (auto simp: mount_def unmount_def)

text \<open>
  Claim C8, on the code. Unmounting right after mounting cancels the frame request the
  effect made and removes the observer and the listener, but the timeout that
  \<^verbatim>\<open>setTimeout(resize, 0)\<close> registered is still pending: no handle of it is kept and the
  cleanup function does not clear it. When the host runs it, \<open>resize\<close> calls
  \<^verbatim>\<open>ctx.scale\<close> after teardown.
\<close>

theorem teardown_leaves_timeout:
  "timeouts (unmount (mount True True True d rnd w)) = timeouts w @ [next_id w]
   \<and> timeouts (unmount (mount True True True d rnd w)) \<noteq> []
   \<and> scale_calls (host_step rnd (Timeout (next_id w)) (unmount (mount True True True d rnd w)))
       = scale_calls w @ [(max 1 (if d = 0 then 1 else d), max 1 (if d = 0 then 1 else d))]
   \<and> frame_requests (unmount (mount True True True d rnd w))
       = removeAll (next_id w + 1) (frame_requests w)
   \<and> \<not> observed (unmount (mount True True True d rnd w))
   \<and> \<not> resize_listener (unmount (mount True True True d rnd w))"
  unfolding unmount_mount
  by (simp add: teardown_fields mount_fields resize_def)

theorem teardown_leaves_timeout_witness:
  "timeouts (unmount (mount True True True 2 sample_rng world0)) = [1]
   \<and> scale_calls (host_step sample_rng (Timeout 1)
                     (unmount (mount True True True 2 sample_rng world0))) = [(2, 2)]
   \<and> frame_requests (unmount (mount True True True 2 sample_rng world0)) = []"
proof -
  have n: "next_id world0 = 1" "timeouts world0 = []" "scale_calls world0 = []"
    "frame_requests world0 = []"
    by (simp_all add: world0_def)
  from teardown_leaves_timeout[of 2 sample_rng world0, unfolded n]
  show ?thesis by (simp del: host_step.simps)
qed

end
